theory Spec2Isabelle
  imports Complex_Main
begin

section \<open>Tile grid of the blink stack viewer\<close>

text \<open>
  The main program reads the mosaic size \<open>(xmax, ymax)\<close> from the first image of the
  stack and cuts it into sections, stepping both axes from 1 in strides of \<open>width\<close>.
  A section is the 4-tuple \<open>(x1, x1 + width, y1, y1 + width)\<close>; it is later sent to the
  viewer as the cutout \<open>[x1:x1+width,y1:y1+width]\<close>, whose bounds are inclusive.
  The stride is the constant 128 in the program; it is a parameter here.
\<close>

type_synonym tile = "int \<times> int \<times> int \<times> int"

text \<open>Python's \<open>range(start, stop, step)\<close> for a positive step.\<close>

function py_range :: "int \<Rightarrow> int \<Rightarrow> int \<Rightarrow> int list" where
  "py_range start stop step =
     (if 0 < step \<and> start < stop then start # py_range (start + step) stop step else [])"
  by pat_completeness auto
termination
  by (relation "measure (\<lambda>(start, stop, step). nat (stop - start))") auto

declare py_range.simps [simp del]

text \<open>The inner loop: one section appended per \<open>y1\<close>, for a fixed \<open>x1\<close>.\<close>

definition append_row :: "int \<Rightarrow> int list \<Rightarrow> tile list \<Rightarrow> int \<Rightarrow> tile list" where
  "append_row width dys acc x1 =
     foldl (\<lambda>secs y1. secs @ [(x1, x1 + width, y1, y1 + width)]) acc dys"

text \<open>The outer loop over \<open>dxs\<close>, starting from the empty list.\<close>

definition build_sections :: "int \<Rightarrow> int \<Rightarrow> int \<Rightarrow> tile list" where
  "build_sections xmax ymax width =
     (let dxs = py_range 1 (xmax + 1) width;
          dys = py_range 1 (ymax + 1) width
      in foldl (append_row width dys) [] dxs)"

text \<open>A pixel lies in a section when it is within its bounds, both ends included.\<close>

definition in_tile :: "tile \<Rightarrow> int \<Rightarrow> int \<Rightarrow> bool" where
  "in_tile t px py =
     (case t of (x1, x2, y1, y2) \<Rightarrow> x1 \<le> px \<and> px \<le> x2 \<and> y1 \<le> py \<and> py \<le> y2)"

section \<open>Python values and text\<close>

text \<open>The exceptions the program can raise, as values.\<close>

datatype error = TypeError | KeyError | IndexError | ValueError | IOError | AttributeError

text \<open>
  The \<open>section\<close> argument of \<open>load_image\<close> and the values of the \<open>sections\<close>
  dictionary are untyped in the program: the value \<open>None\<close> (the default: no cropping),
  a string (the guards of \<open>load_regions\<close> and \<open>save_regions\<close> compare with the string
  \<open>"None"\<close>), or a 4-tuple of integers.
\<close>

datatype sect = SecNone | SecStr string | SecTuple tile

text \<open>
  \<open>section[i]\<close> where the program uses it as a number: \<open>None\<close> cannot be indexed,
  a character of a string cannot be added to a number, a tuple gives its component.
\<close>

definition sec_num :: "sect \<Rightarrow> nat \<Rightarrow> error + int" where
  "sec_num sec i =
     (case sec of
        SecNone \<Rightarrow> Inl TypeError
      | SecStr str \<Rightarrow> (if i < length str then Inl TypeError else Inl IndexError)
      | SecTuple t \<Rightarrow>
          (case t of (a, b, c, d) \<Rightarrow>
             (if i < 4 then Inr ([a, b, c, d] ! i) else Inl IndexError)))"

text \<open>Python list indexing: a negative index counts from the end.\<close>

definition py_index :: "'a list \<Rightarrow> int \<Rightarrow> error + 'a" where
  "py_index xs i =
     (if 0 \<le> i \<and> i < int (length xs) then Inr (xs ! nat i)
      else if i < 0 \<and> - int (length xs) \<le> i then Inr (xs ! nat (int (length xs) + i))
      else Inl IndexError)"

text \<open>Decimal text of integers, as \<open>str\<close> and \<open>"{}".format\<close> give it.\<close>

definition digit_char :: "nat \<Rightarrow> char" where
  "digit_char d = ''0123456789'' ! d"

fun show_nat :: "nat \<Rightarrow> string" where
  "show_nat n = (if n < 10 then [digit_char n] else show_nat (n div 10) @ [digit_char (n mod 10)])"

declare show_nat.simps [simp del]

definition show_int :: "int \<Rightarrow> string" where
  "show_int i = (if i < 0 then ''-'' @ show_nat (nat (- i)) else show_nat (nat i))"

text \<open>
  The format \<open>{:12.2f}\<close>: the value rounded to two decimals (to nearest, ties to even),
  written in fixed point and right-aligned in a field of width 12. Coordinates are
  Python floats; they are real numbers here, so the rounding of float arithmetic itself
  is not modelled.
\<close>

definition round_half_even :: "real \<Rightarrow> int" where
  "round_half_even r =
     (let f = \<lfloor>r\<rfloor>; d = r - of_int f
      in if d < 1 / 2 then f else if 1 / 2 < d then f + 1 else if even f then f else f + 1)"

definition format_2f :: "real \<Rightarrow> string" where
  "format_2f v =
     (let n = nat (round_half_even (\<bar>v\<bar> * 100))
      in (if v < 0 then ''-'' else []) @ show_nat (n div 100) @ ''.''
           @ [digit_char (n mod 100 div 10), digit_char (n mod 10)])"

definition rjust :: "nat \<Rightarrow> string \<Rightarrow> string" where
  "rjust w str = replicate (w - length str) (CHR '' '') @ str"

definition newline :: char where
  "newline = CHR 0x0A"

text \<open>The line \<open>save_regions\<close> writes for one point.\<close>

definition region_line :: "real \<Rightarrow> real \<Rightarrow> string" where
  "region_line x y = rjust 12 (format_2f x) @ '' '' @ rjust 12 (format_2f y) @ [newline]"

text \<open>Iterating over an open text file: the lines, each with its newline.\<close>

fun lines_from :: "string \<Rightarrow> string \<Rightarrow> string list" where
  "lines_from cur [] = (if cur = [] then [] else [cur])"
| "lines_from cur (c # cs) =
     (if c = newline then (cur @ [c]) # lines_from [] cs else lines_from (cur @ [c]) cs)"

definition py_lines :: "string \<Rightarrow> string list" where
  "py_lines content = lines_from [] content"

text \<open>\<open>str.split()\<close>: the fields between runs of whitespace.\<close>

definition is_space :: "char \<Rightarrow> bool" where
  "is_space c = (c \<in> set [CHR '' '', CHR 0x09, CHR 0x0A, CHR 0x0B, CHR 0x0C, CHR 0x0D])"

fun fields_from :: "string \<Rightarrow> string \<Rightarrow> string list" where
  "fields_from cur [] = (if cur = [] then [] else [cur])"
| "fields_from cur (c # cs) =
     (if is_space c then (if cur = [] then fields_from [] cs else cur # fields_from [] cs)
      else fields_from (cur @ [c]) cs)"

definition py_split :: "string \<Rightarrow> string list" where
  "py_split line = fields_from [] line"

text \<open>
  \<open>float(field)\<close> on plain decimal text: an optional sign, digits, and optionally a point
  and more digits, with at least one digit. Anything else is a \<open>ValueError\<close> here; the
  exponent, \<open>inf\<close> and \<open>nan\<close> forms that Python also reads do not occur in lines written
  by \<open>save_regions\<close> for finite coordinates.
\<close>

definition digit_of :: "char \<Rightarrow> nat option" where
  "digit_of c =
     (if c \<in> set ''0123456789''
      then Some (length (takeWhile (\<lambda>d. d \<noteq> c) ''0123456789''))
      else None)"

fun digits_value :: "nat \<Rightarrow> string \<Rightarrow> nat option" where
  "digits_value acc [] = Some acc"
| "digits_value acc (c # cs) =
     (case digit_of c of None \<Rightarrow> None | Some d \<Rightarrow> digits_value (10 * acc + d) cs)"

definition py_float :: "string \<Rightarrow> real option" where
  "py_float field =
     (let neg = (case field of [] \<Rightarrow> False | c # _ \<Rightarrow> c = CHR ''-'');
          body = (case field of [] \<Rightarrow> []
                  | c # r \<Rightarrow> if c = CHR ''-'' \<or> c = CHR ''+'' then r else field);
          ip = takeWhile (\<lambda>c. c \<noteq> CHR ''.'') body;
          fp = drop (Suc (length ip)) body
      in if ip = [] \<and> fp = [] then None
         else (case digits_value 0 ip of
                 None \<Rightarrow> None
               | Some a \<Rightarrow>
                   (case digits_value 0 fp of
                      None \<Rightarrow> None
                    | Some b \<Rightarrow>
                        Some ((if neg then - 1 else 1)
                                * (real a + real b / 10 ^ length fp)))))"

text \<open>
  \<open>os.path.splitext\<close>: the extension starts at the last dot of the last path component,
  unless that component has only leading dots before it.
\<close>

definition rfind :: "char \<Rightarrow> string \<Rightarrow> int" where
  "rfind c p =
     (if c \<in> set p then int (length p) - 1 - int (length (takeWhile (\<lambda>x. x \<noteq> c) (rev p)))
      else - 1)"

definition splitext :: "string \<Rightarrow> string \<times> string" where
  "splitext p =
     (let sepIndex = rfind (CHR ''/'') p;
          dotIndex = rfind (CHR ''.'') p
      in if dotIndex > sepIndex
            \<and> list_ex (\<lambda>c. c \<noteq> CHR ''.'')
                 (take (nat (dotIndex - (sepIndex + 1))) (drop (nat (sepIndex + 1)) p))
         then (take (nat dotIndex) p, drop (nat dotIndex) p)
         else (p, []))"

section \<open>The viewer, the display manager and the files\<close>

text \<open>
  Modelled from the spec: the external image viewer (the \<open>ds9\<close> object), which is not
  part of the program. It is the remote object of the specification's viewer control
  protocol, reduced to what the program reads back: the frames and the current frame
  number, the blink flag, the file and cutout shown in each frame, and the regions drawn
  on each frame (circle markers and text labels, kept with the coordinates they were
  drawn with). Cosmetic settings (scale, colour map, zoom, panels) have no state here.
\<close>

datatype region = Circle real real real string | Text real real string

text \<open>
  One record holds the viewer, the two dictionaries of the \<open>DisplayManager\<close> object,
  the files on disk (path to content) and the lines printed so far.
\<close>

record state =
  frames :: "int list"
  frameno :: int
  blink_on :: bool
  loaded :: "int \<rightharpoonup> string"
  overlay :: "int \<Rightarrow> region list"
  filenames :: "int \<rightharpoonup> string"
  sections :: "int \<rightharpoonup> sect"
  files :: "string \<rightharpoonup> string"
  printed :: "string list"

text \<open>Viewer commands (\<open>display.set\<close>).\<close>

definition frame_new :: "state \<Rightarrow> state" where
  "frame_new s =
     (let n = foldl max 0 (frames s) + 1 in s\<lparr>frames := frames s @ [n], frameno := n\<rparr>)"

definition frame_delete_all :: "state \<Rightarrow> state" where
  "frame_delete_all s = s\<lparr>frames := [], loaded := Map.empty, overlay := (\<lambda>_. [])\<rparr>"

definition set_file :: "string \<Rightarrow> state \<Rightarrow> state" where
  "set_file name s = s\<lparr>loaded := (loaded s)(frameno s \<mapsto> name)\<rparr>"

definition set_blink :: "string \<Rightarrow> state \<Rightarrow> state" where
  "set_blink arg s = s\<lparr>blink_on := (arg \<in> set [''yes'', ''on'', ''true'', ''1''])\<rparr>"

definition region_delete_all :: "state \<Rightarrow> state" where
  "region_delete_all s = s\<lparr>overlay := (overlay s)(frameno s := [])\<rparr>"

definition draw_region :: "region \<Rightarrow> state \<Rightarrow> state" where
  "draw_region r s = s\<lparr>overlay := (overlay s)(frameno s := overlay s (frameno s) @ [r])\<rparr>"

text \<open>Methods of \<open>DisplayManager\<close>. A raised exception carries the state it leaves.\<close>

type_synonym 'a result = "(error \<times> state) + 'a"

definition reg_extension :: string where
  "reg_extension = ''coo''"

definition frame_number :: "state \<Rightarrow> int" where
  "frame_number s = frameno s"

definition region_filename :: "state \<Rightarrow> string result" where
  "region_filename s =
     (let idx = frame_number s
      in case filenames s idx of
           None \<Rightarrow> Inl (KeyError, s)
         | Some name \<Rightarrow> Inr (fst (splitext name) @ ''.'' @ reg_extension))"

definition blinking :: "state \<Rightarrow> bool" where
  "blinking s = blink_on s"

definition blink :: "string option \<Rightarrow> state \<Rightarrow> state" where
  "blink setting s =
     (let toggled = (if blinking s then ''no'' else ''yes'');
          arg = (case setting of
                   None \<Rightarrow> toggled
                 | Some t \<Rightarrow> if t \<noteq> [] then t else toggled)
      in set_blink arg s)"

definition clear :: "state \<Rightarrow> state" where
  "clear s = frame_delete_all s"

definition mark :: "real \<Rightarrow> real \<Rightarrow> state \<Rightarrow> state" where
  "mark x y s = draw_region (Circle x y 10 ''red'') s"

definition label :: "real \<Rightarrow> real \<Rightarrow> string \<Rightarrow> state \<Rightarrow> state" where
  "label x y caption s = draw_region (Text x y caption) s"

text \<open>
  The \<open>regions\<close> property. The viewer answers the region query with one line per
  region of the current frame: \<open>circle(x,y,r) # color=c\<close> for a circle and
  \<open># text(x,y) text={caption}\<close> for a label. The program takes every line that
  contains \<open>circle\<close> and matches it against the pattern \<open>circle\((.*),(.*),(.*)\).*\<close>
  from its start: the line of a circle gives its centre, while the line of a label whose
  caption contains \<open>circle\<close> does not match, and reading the groups of the failed match
  raises an \<open>AttributeError\<close>.
\<close>

fun py_in :: "string \<Rightarrow> string \<Rightarrow> bool" where
  "py_in needle [] = (needle = [])"
| "py_in needle (c # cs) = (take (length needle) (c # cs) = needle \<or> py_in needle cs)"

definition circle_in_line :: "region \<Rightarrow> bool" where
  "circle_in_line r =
     (case r of Circle x y rad c \<Rightarrow> True | Text x y caption \<Rightarrow> py_in ''circle'' caption)"

fun circle_centres :: "region list \<Rightarrow> error + (real \<times> real) list" where
  "circle_centres [] = Inr []"
| "circle_centres (r # rs) =
     (if circle_in_line r
      then (case r of
              Circle x y rad c \<Rightarrow>
                (case circle_centres rs of
                   Inl e \<Rightarrow> Inl e
                 | Inr centres \<Rightarrow> Inr ((x, y) # centres))
            | Text x y caption \<Rightarrow> Inl AttributeError)
      else circle_centres rs)"

definition regions :: "state \<Rightarrow> error + (real \<times> real) list" where
  "regions s = circle_centres (overlay s (frameno s))"

text \<open>The guard both \<open>load_regions\<close> and \<open>save_regions\<close> apply to the bound section.\<close>

definition none_guard :: "sect \<Rightarrow> sect" where
  "none_guard sec = (if sec = SecStr ''None'' then SecTuple (1, 0, 1, 0) else sec)"

text \<open>The loop of \<open>load_regions\<close> over the lines of the sidecar file.\<close>

fun load_lines :: "sect \<Rightarrow> string list \<Rightarrow> state \<Rightarrow> state result" where
  "load_lines sec [] s = Inr s"
| "load_lines sec (line # rest) s =
     (case py_split line of
        [xf, yf] \<Rightarrow>
          (case py_float xf of
             None \<Rightarrow> Inl (ValueError, s)
           | Some xv \<Rightarrow>
               (case sec_num sec 0 of
                  Inl e \<Rightarrow> Inl (e, s)
                | Inr x0 \<Rightarrow>
                    (case py_float yf of
                       None \<Rightarrow> Inl (ValueError, s)
                     | Some yv \<Rightarrow>
                         (case sec_num sec 2 of
                            Inl e \<Rightarrow> Inl (e, s)
                          | Inr y0 \<Rightarrow>
                              load_lines sec rest
                                (mark (xv - real_of_int x0 + 1) (yv - real_of_int y0 + 1) s)))))
      | _ \<Rightarrow> Inl (ValueError, s))"

definition load_regions :: "state \<Rightarrow> state result" where
  "load_regions s =
     (case region_filename s of
        Inl e \<Rightarrow> Inl e
      | Inr path \<Rightarrow>
          (case files s path of
             None \<Rightarrow> Inr s
           | Some content \<Rightarrow>
               (case sections s (frame_number s) of
                  None \<Rightarrow> Inl (KeyError, s)
                | Some sec \<Rightarrow> load_lines (none_guard sec) (py_lines content) s)))"

text \<open>The loop of \<open>save_regions\<close> over the circles; each line is appended to the file.\<close>

definition write_file :: "string \<Rightarrow> string \<Rightarrow> state \<Rightarrow> state" where
  "write_file path chunk s =
     s\<lparr>files := (files s)(path \<mapsto> (case files s path of None \<Rightarrow> [] | Some c \<Rightarrow> c) @ chunk)\<rparr>"

fun write_regions :: "string \<Rightarrow> sect \<Rightarrow> (real \<times> real) list \<Rightarrow> state \<Rightarrow> state result" where
  "write_regions path sec [] s = Inr s"
| "write_regions path sec (region # rest) s =
     (case sec_num sec 0 of
        Inl e \<Rightarrow> Inl (e, s)
      | Inr s0 \<Rightarrow>
          (case sec_num sec 1 of
             Inl e \<Rightarrow> Inl (e, s)
           | Inr s1 \<Rightarrow>
               (let x = fst region + real_of_int s0 - 1;
                    y = snd region + real_of_int s1 - 1
                in write_regions path sec rest (write_file path (region_line x y) s))))"

definition save_regions :: "state \<Rightarrow> state result" where
  "save_regions s =
     (case region_filename s of
        Inl e \<Rightarrow> Inl e
      | Inr path \<Rightarrow>
          (let s1 = s\<lparr>files := (files s)(path \<mapsto> [])\<rparr>
           in case sections s1 (frame_number s1) of
                None \<Rightarrow> Inl (KeyError, s1)
              | Some sec \<Rightarrow>
                  (case regions s1 of
                     Inl e \<Rightarrow> Inl (e, s1)
                   | Inr centres \<Rightarrow> write_regions path (none_guard sec) centres s1)))"

text \<open>The loop of \<open>delete_region\<close> over the lines read from the sidecar file.\<close>

fun remark_lines :: "real \<Rightarrow> real \<Rightarrow> string list \<Rightarrow> state \<Rightarrow> state result" where
  "remark_lines x y [] s = Inr s"
| "remark_lines x y (line # rest) s =
     (let v = py_split line
      in case py_index v 0 of
           Inl e \<Rightarrow> Inl (e, s)
         | Inr f0 \<Rightarrow>
             (case py_float f0 of
                None \<Rightarrow> Inl (ValueError, s)
              | Some rx \<Rightarrow>
                  (case py_index v 1 of
                     Inl e \<Rightarrow> Inl (e, s)
                   | Inr f1 \<Rightarrow>
                       (case py_float f1 of
                          None \<Rightarrow> Inl (ValueError, s)
                        | Some ry \<Rightarrow>
                            (if sqrt ((rx - x)\<^sup>2 + (ry - y)\<^sup>2) < 1
                             then remark_lines x y rest s
                             else remark_lines x y rest (mark rx ry s))))))"

definition delete_region :: "real \<Rightarrow> real \<Rightarrow> state \<Rightarrow> state result" where
  "delete_region x y s =
     (case region_filename s of
        Inl e \<Rightarrow> Inl e
      | Inr path \<Rightarrow>
          (case files s path of
             None \<Rightarrow> Inl (IOError, s)
           | Some content \<Rightarrow>
               (let lines = py_lines content;
                    s1 = s\<lparr>files := (files s)(path := None)\<rparr>;
                    s2 = region_delete_all s1
                in case remark_lines x y lines s2 of
                     Inl e \<Rightarrow> Inl e
                   | Inr s3 \<Rightarrow> save_regions s3)))"

text \<open>The cutout expression of \<open>load_image\<close>.\<close>

definition cutout_of :: "sect \<Rightarrow> error + string" where
  "cutout_of sec =
     (case sec of
        SecNone \<Rightarrow> Inr ''[*,*]''
      | SecStr str \<Rightarrow>
          (if 4 \<le> length str
           then Inr (''['' @ [str ! 0] @ '':'' @ [str ! 1] @ '','' @ [str ! 2] @ '':''
                      @ [str ! 3] @ '']'')
           else Inl IndexError)
      | SecTuple t \<Rightarrow>
          (case t of (a, b, c, d) \<Rightarrow>
             Inr (''['' @ show_int a @ '':'' @ show_int b @ '','' @ show_int c @ '':''
                    @ show_int d @ '']'')))"

definition load_image :: "string \<Rightarrow> sect \<Rightarrow> int option \<Rightarrow> state \<Rightarrow> state result" where
  "load_image image_name sec frame s =
     (let s1 = (if frame = None then frame_new s else s)
      in case cutout_of sec of
           Inl e \<Rightarrow> Inl (e, s1)
         | Inr cutout \<Rightarrow>
             (let s2 = set_file (image_name @ cutout) s1;
                  s3 = s2\<lparr>filenames := (filenames s2)(frame_number s2 \<mapsto> image_name)\<rparr>;
                  s4 = s3\<lparr>sections := (sections s3)(frame_number s3 \<mapsto> sec)\<rparr>
              in case sec_num sec 1 of
                   Inl e \<Rightarrow> Inl (e, s4)
                 | Inr x_max \<Rightarrow>
                     (case sec_num sec 2 of
                        Inl e \<Rightarrow> Inl (e, s4)
                      | Inr y_min \<Rightarrow>
                          (case sec_num sec 3 of
                             Inl e \<Rightarrow> Inl (e, s4)
                           | Inr y_max \<Rightarrow>
                               load_regions
                                 (label (real_of_int (x_max - 10))
                                    (real_of_int (y_min + y_max) / 2)
                                    (image_name @ cutout) s4)))))"

text \<open>\<open>load_images\<close>: every file of the stack at one section, blinking suspended.\<close>

fun load_each :: "string list \<Rightarrow> sect \<Rightarrow> state \<Rightarrow> state result" where
  "load_each [] sec s = Inr s"
| "load_each (file_name # rest) sec s =
     (case load_image file_name sec None s of
        Inl e \<Rightarrow> Inl e
      | Inr s' \<Rightarrow> load_each rest sec s')"

definition load_images :: "string list \<Rightarrow> sect \<Rightarrow> state \<Rightarrow> state result" where
  "load_images file_names sec s =
     (let was_blinking = blinking s;
          s1 = (if was_blinking then blink (Some ''no'') s else s)
      in case load_each file_names sec s1 of
           Inl e \<Rightarrow> Inl e
         | Inr s2 \<Rightarrow> Inr (if was_blinking then blink (Some ''yes'') s2 else s2))"

text \<open>The constructor: clear, set up (which turns blinking on), empty dictionaries.\<close>

definition new_display_manager :: "state \<Rightarrow> state" where
  "new_display_manager s =
     (blink (Some ''on'') (clear s))\<lparr>filenames := Map.empty, sections := Map.empty\<rparr>"

section \<open>The interaction loop\<close>

text \<open>
  An event is what \<open>imexam\<close> returns: the key and the cursor position in the displayed
  cutout. The loop keeps the index \<open>idx\<close> of the current section; an uncaught exception
  ends the program and is returned with the index and the state at that point.
\<close>

type_synonym event = "string \<times> real \<times> real"

datatype outcome = Continue int state | Break int state

type_synonym loop_result = "(error \<times> int \<times> state) + outcome"

definition width :: int where
  "width = 128"

text \<open>\<open>d.clear()\<close> followed by \<open>d.load_images(stack, section=sections[idx])\<close>.\<close>

definition reload :: "tile list \<Rightarrow> string list \<Rightarrow> int \<Rightarrow> state \<Rightarrow> loop_result" where
  "reload secs file_names idx s =
     (let s1 = clear s
      in case py_index secs idx of
           Inl e \<Rightarrow> Inl (e, idx, s1)
         | Inr t \<Rightarrow>
             (case load_images file_names (SecTuple t) s1 of
                Inl (e, s') \<Rightarrow> Inl (e, idx, s')
              | Inr s2 \<Rightarrow> Inr (Continue idx s2)))"

text \<open>
  The program start up to the loop. The mosaic size \<open>limits\<close> is read from the header of
  the first file and \<open>file_names\<close> is the result of the file pattern; both are inputs.
\<close>

definition start :: "int \<times> int \<Rightarrow> string list \<Rightarrow> state \<Rightarrow> (error \<times> int \<times> state) + (tile list \<times> int \<times> state)" where
  "start limits file_names s0 =
     (let secs = build_sections (fst limits) (snd limits) width;
          d = new_display_manager s0;
          idx = 0
      in case reload secs file_names idx d of
           Inl e \<Rightarrow> Inl e
         | Inr (Continue i s) \<Rightarrow> Inr (secs, i, s)
         | Inr (Break i s) \<Rightarrow> Inr (secs, i, s))"

text \<open>
  One pass of the loop body. The program tests the key with a sequence of separate
  \<open>if\<close> statements; the key does not change in between, so at most one fires.
  \<open>usage\<close> is the help text the argument parser prints.
\<close>

definition warn_mark :: string where
  "warn_mark = ''Toggle off blink (b) before marking.''"

definition warn_delete :: string where
  "warn_delete = ''Toggle off blink (b) before deleting a mark.''"

definition step :: "string \<Rightarrow> tile list \<Rightarrow> string list \<Rightarrow> event \<Rightarrow> int \<Rightarrow> state \<Rightarrow> loop_result" where
  "step usage secs file_names response idx s =
     (case response of (key, rx, ry) \<Rightarrow>
        if key = ''n'' then
          reload secs file_names (min (idx + 1) (int (length secs) - 1)) s
        else if key = ''p'' then
          reload secs file_names (max (idx - 1) 0) s
        else if key = ''b'' then
          Inr (Continue idx (blink None s))
        else if key = ''a'' then
          (if blinking s then Inr (Continue idx (s\<lparr>printed := printed s @ [warn_mark]\<rparr>))
           else
             (let s1 = mark rx ry s
              in case py_index secs idx of
                   Inl e \<Rightarrow> Inl (e, idx, s1)
                 | Inr t \<Rightarrow>
                     (case save_regions s1 of
                        Inl (e, s') \<Rightarrow> Inl (e, idx, s')
                      | Inr s2 \<Rightarrow> Inr (Continue idx s2))))
        else if key = ''d'' then
          (if blinking s then Inr (Continue idx (s\<lparr>printed := printed s @ [warn_delete]\<rparr>))
           else
             (case py_index secs idx of
                Inl e \<Rightarrow> Inl (e, idx, s)
              | Inr t \<Rightarrow>
                  (case t of (x_min, x_max, y_min, y_max) \<Rightarrow>
                     (let x = real_of_int x_min + rx - 1;
                          y = real_of_int y_min + ry - 1
                      in case delete_region x y s of
                           Inl (e, s') \<Rightarrow> Inl (e, idx, s')
                         | Inr s1 \<Rightarrow>
                             (case py_index file_names (frame_number s1 - 1) of
                                Inl e \<Rightarrow> Inl (e, idx, s1)
                              | Inr name \<Rightarrow>
                                  (case load_image name (SecTuple t) None s1 of
                                     Inl (e, s') \<Rightarrow> Inl (e, idx, s')
                                   | Inr s2 \<Rightarrow> Inr (Continue idx s2)))))))
        else if key = ''question'' then
          Inr (Continue idx (s\<lparr>printed := printed s @ [usage]\<rparr>))
        else if key = ''q'' then
          Inr (Break idx (blink (Some ''no'') s))
        else Inr (Continue idx s))"

text \<open>The loop over the events the viewer delivers, until \<open>q\<close> or an exception.\<close>

fun run :: "string \<Rightarrow> tile list \<Rightarrow> string list \<Rightarrow> event list \<Rightarrow> int \<Rightarrow> state \<Rightarrow> loop_result" where
  "run usage secs file_names [] idx s = Inr (Continue idx s)"
| "run usage secs file_names (response # rest) idx s =
     (case step usage secs file_names response idx s of
        Inl e \<Rightarrow> Inl e
      | Inr (Break i s') \<Rightarrow> Inr (Break i s')
      | Inr (Continue i s') \<Rightarrow> run usage secs file_names rest i s')"

definition idx_of :: "loop_result \<Rightarrow> int" where
  "idx_of r = (case r of Inl (e, i, s) \<Rightarrow> i | Inr (Continue i s) \<Rightarrow> i | Inr (Break i s) \<Rightarrow> i)"

text \<open>A viewer with no frames, a display manager with no bindings, an empty disk.\<close>

definition blank :: state where
  "blank = \<lparr>frames = [], frameno = 0, blink_on = False, loaded = Map.empty,
            overlay = (\<lambda>_. []), filenames = Map.empty, sections = Map.empty,
            files = Map.empty, printed = []\<rparr>"

text \<open>The whole program on a finite run of events.\<close>

definition main_program :: "string \<Rightarrow> int \<times> int \<Rightarrow> string list \<Rightarrow> state \<Rightarrow> event list \<Rightarrow> loop_result" where
  "main_program usage limits file_names s0 events =
     (case start limits file_names s0 of
        Inl e \<Rightarrow> Inl e
      | Inr (secs, idx, s) \<Rightarrow> run usage secs file_names events idx s)"

section \<open>Reading results\<close>

text \<open>The exception raised, if any, and the state left behind, raised or not.\<close>

definition raised :: "state result \<Rightarrow> error option" where
  "raised r = (case r of Inl (e, s) \<Rightarrow> Some e | Inr s \<Rightarrow> None)"

definition state_after :: "state result \<Rightarrow> state" where
  "state_after r = (case r of Inl (e, s) \<Rightarrow> s | Inr s \<Rightarrow> s)"

definition loop_raised :: "loop_result \<Rightarrow> error option" where
  "loop_raised r = (case r of Inl (e, i, s) \<Rightarrow> Some e | Inr out \<Rightarrow> None)"

definition loop_state :: "loop_result \<Rightarrow> state" where
  "loop_state r =
     (case r of Inl (e, i, s) \<Rightarrow> s | Inr (Continue i s) \<Rightarrow> s | Inr (Break i s) \<Rightarrow> s)"

text \<open>The first section of a 256 by 256 mosaic, and a sidecar file holding three points.\<close>

definition first_tile :: tile where
  "first_tile = (1, 129, 1, 129)"

definition three_points :: string where
  "three_points =
     ''        0.00         0.00'' @ [newline]
       @ ''        0.50         0.50'' @ [newline]
       @ ''       10.00        10.00'' @ [newline]"

text \<open>
  The states the scenarios start from: the image \<open>a.fits\<close> shown at the first section,
  shown with no cropping (\<open>section=None\<close>), and shown with the string \<open>"None"\<close>
  as its section. The last two calls raise; the state is the one they leave.
\<close>

definition shown_first_tile :: state where
  "shown_first_tile = state_after (load_image ''a.fits'' (SecTuple first_tile) None blank)"

definition uncropped :: state where
  "uncropped = state_after (load_image ''a.fits'' SecNone None blank)"

definition uncropped_str :: state where
  "uncropped_str = state_after (load_image ''a.fits'' (SecStr ''None'') None blank)"

section \<open>Properties of the tile grid\<close>

lemma py_range_length:
  "0 < d \<Longrightarrow> length (py_range a b d) = nat ((b - a + d - 1) div d)"
proof (induction a b d rule: py_range.induct)
  case (1 a b d)
  show ?case
  proof (cases "a < b")
    case False
    with 1(2) have "(b - a + d - 1) div d \<le> (d - 1) div d"
      by (intro zdiv_mono1) simp_all
    moreover from 1(2) have "(d - 1) div d = 0"
      by (simp add: div_pos_pos_trivial)
    ultimately have "(b - a + d - 1) div d \<le> 0" by simp
    with False show ?thesis by (simp add: py_range.simps)
  next
    case True
    have "(b - a + d - 1) div d = (b - (a + d) + d - 1) div d + 1"
    proof -
      have "b - a + d - 1 = (b - (a + d) + d - 1) + d" by simp
      with 1(2) show ?thesis by (simp only: div_add_self2)
    qed
    moreover have "0 \<le> (b - (a + d) + d - 1) div d"
      using True 1(2) by (simp add: pos_imp_zdiv_nonneg_iff)
    ultimately show ?thesis
      using True 1 by (simp add: py_range.simps[of a] nat_add_distrib)
  qed
qed

lemma py_range_nth:
  "i < length (py_range a b d) \<Longrightarrow> py_range a b d ! i = a + int i * d"
proof (induction a b d arbitrary: i rule: py_range.induct)
  case (1 a b d)
  show ?case
  proof (cases "0 < d \<and> a < b")
    case False
    with 1(2) show ?thesis by (simp add: py_range.simps)
  next
    case True
    show ?thesis
    proof (cases i)
      case 0
      with True show ?thesis by (simp add: py_range.simps[of a])
    next
      case (Suc m)
      with True 1(2) have "m < length (py_range (a + d) b d)"
        by (simp add: py_range.simps[of a])
      with 1(1) True have "py_range (a + d) b d ! m = a + d + int m * d"
        by simp
      with True Suc show ?thesis
        by (simp add: py_range.simps[of a] algebra_simps)
    qed
  qed
qed

lemma py_range_cover:
  "0 < d \<Longrightarrow> a \<le> p \<Longrightarrow> p < b \<Longrightarrow>
     \<exists>x \<in> set (py_range a b d). x \<le> p \<and> p < x + d"
proof (induction a b d rule: py_range.induct)
  case (1 a b d)
  from 1(2-4) have go: "0 < d \<and> a < b" by simp
  show ?case
  proof (cases "p < a + d")
    case True
    with go 1(3) show ?thesis by (simp add: py_range.simps[of a])
  next
    case False
    with 1 go obtain x where "x \<in> set (py_range (a + d) b d)" "x \<le> p" "p < x + d"
      by force
    with go show ?thesis by (auto simp add: py_range.simps[of a])
  qed
qed


lemma append_row_map:
  "append_row E dys acc x1 = acc @ map (\<lambda>y1. (x1, x1 + E, y1, y1 + E)) dys"
  unfolding append_row_def
  by (induction dys arbitrary: acc) simp_all

lemma foldl_append_row:
  "foldl (append_row E dys) acc dxs =
     acc @ map (\<lambda>(x1, y1). (x1, x1 + E, y1, y1 + E)) (List.product dxs dys)"
  by (induction dxs arbitrary: acc) (simp_all add: append_row_map comp_def)

lemma build_sections_product:
  "build_sections xmax ymax E =
     map (\<lambda>(x1, y1). (x1, x1 + E, y1, y1 + E))
       (List.product (py_range 1 (xmax + 1) E) (py_range 1 (ymax + 1) E))"
  by (simp add: build_sections_def foldl_append_row)

lemma ceiling_stride:
  assumes E: "0 < (E::int)"
  shows "\<lceil>real_of_int W / real_of_int E\<rceil> = (W + E - 1) div E"
proof -
  define q where "q = W div E"
  define r where "r = W mod E"
  have W: "W = E * q + r" and r0: "0 \<le> r" and rE: "r < E"
    using E by (simp_all add: q_def r_def)
  have c: "\<lceil>real_of_int W / real_of_int E\<rceil> = - (- W div E)"
    by (simp add: ceiling_divide_eq_div)
  show ?thesis
  proof (cases "r = 0")
    case True
    have "(W + E - 1) div E = q"
      by (rule int_div_pos_eq[where r = "E - 1"]) (use W True E in simp_all)
    moreover have "- W div E = - q"
      by (rule int_div_pos_eq[where r = 0]) (use W True E in simp_all)
    ultimately show ?thesis using c by simp
  next
    case False
    have "(W + E - 1) div E = q + 1"
      by (rule int_div_pos_eq[where r = "r - 1"]) (use W False r0 rE E in \<open>simp_all add: algebra_simps\<close>)
    moreover have "- W div E = - q - 1"
      by (rule int_div_pos_eq[where r = "E - r"]) (use W False r0 rE E in \<open>simp_all add: algebra_simps\<close>)
    ultimately show ?thesis using c by simp
  qed
qed


text \<open>
  Claim C4. For a mosaic of width \<open>W\<close> and height \<open>H\<close> and a stride \<open>E\<close>, all at least 1,
  every pixel of \<open>[1,W] \<times> [1,H]\<close> lies in some generated section, the number of sections
  is \<open>ceil(W/E) * ceil(H/E)\<close>, and the sections come in row-major order with x outer and
  y inner: the section at position \<open>i * ceil(H/E) + j\<close> starts at
  \<open>(1 + i * E, 1 + j * E)\<close>.
\<close>

theorem build_sections_covers_row_major:
  assumes W: "1 \<le> W" and H: "1 \<le> H" and E: "1 \<le> E"
  shows "(\<forall>px py. 1 \<le> px \<and> px \<le> W \<and> 1 \<le> py \<and> py \<le> H \<longrightarrow>
            (\<exists>t \<in> set (build_sections W H E). in_tile t px py))
       \<and> int (length (build_sections W H E))
            = \<lceil>real_of_int W / real_of_int E\<rceil> * \<lceil>real_of_int H / real_of_int E\<rceil>
       \<and> (\<forall>i j. i < nat \<lceil>real_of_int W / real_of_int E\<rceil>
                \<and> j < nat \<lceil>real_of_int H / real_of_int E\<rceil> \<longrightarrow>
            build_sections W H E ! (i * nat \<lceil>real_of_int H / real_of_int E\<rceil> + j)
              = (1 + int i * E, 1 + int i * E + E, 1 + int j * E, 1 + int j * E + E))"
proof -
  define dxs where "dxs = py_range 1 (W + 1) E"
  define dys where "dys = py_range 1 (H + 1) E"
  define mk where "mk = (\<lambda>(x1 :: int, y1 :: int). (x1, x1 + E, y1, y1 + E))"
  have secs: "build_sections W H E = map mk (List.product dxs dys)"
    by (simp add: build_sections_product dxs_def dys_def mk_def)
  from E have Epos: "0 < E" by simp
  have nx: "int (length dxs) = \<lceil>real_of_int W / real_of_int E\<rceil>"
  proof -
    have "0 \<le> (W + E - 1) div E"
      using W Epos by (simp add: pos_imp_zdiv_nonneg_iff)
    then show ?thesis
      using Epos by (simp add: dxs_def py_range_length ceiling_stride)
  qed
  have ny: "int (length dys) = \<lceil>real_of_int H / real_of_int E\<rceil>"
  proof -
    have "0 \<le> (H + E - 1) div E"
      using H Epos by (simp add: pos_imp_zdiv_nonneg_iff)
    then show ?thesis
      using Epos by (simp add: dys_def py_range_length ceiling_stride)
  qed
  have nx': "nat \<lceil>real_of_int W / real_of_int E\<rceil> = length dxs"
    using nx by simp
  have ny': "nat \<lceil>real_of_int H / real_of_int E\<rceil> = length dys"
    using ny by simp
  have cover: "\<exists>t \<in> set (build_sections W H E). in_tile t px py"
    if "1 \<le> px" "px \<le> W" "1 \<le> py" "py \<le> H" for px py
  proof -
    from that Epos obtain x1 where x1: "x1 \<in> set dxs" "x1 \<le> px" "px < x1 + E"
      unfolding dxs_def using py_range_cover[of E 1 px "W + 1"] by auto
    from that Epos obtain y1 where y1: "y1 \<in> set dys" "y1 \<le> py" "py < y1 + E"
      unfolding dys_def using py_range_cover[of E 1 py "H + 1"] by auto
    from x1(1) y1(1) have "mk (x1, y1) \<in> set (build_sections W H E)"
      unfolding secs by simp
    moreover have "in_tile (mk (x1, y1)) px py"
      using x1 y1 by (simp add: mk_def in_tile_def)
    ultimately show ?thesis by blast
  qed
  have count: "int (length (build_sections W H E))
      = \<lceil>real_of_int W / real_of_int E\<rceil> * \<lceil>real_of_int H / real_of_int E\<rceil>"
    unfolding secs nx[symmetric] ny[symmetric] by simp
  have order: "build_sections W H E ! (i * length dys + j)
      = (1 + int i * E, 1 + int i * E + E, 1 + int j * E, 1 + int j * E + E)"
    if i: "i < length dxs" and j: "j < length dys" for i j
  proof -
    have "i * length dys + j < Suc i * length dys" using j by simp
    also have "\<dots> \<le> length dxs * length dys"
      using i by (intro mult_le_mono1) simp
    finally have lt: "i * length dys + j < length dxs * length dys" .
    from j have ne: "dys \<noteq> []" by auto
    have d: "(i * length dys + j) div length dys = i"
      using j ne by simp
    have "build_sections W H E ! (i * length dys + j) = mk (dxs ! i, dys ! j)"
      unfolding secs using lt j by (simp add: product_nth d)
    also have "dxs ! i = 1 + int i * E"
      using i unfolding dxs_def by (rule py_range_nth)
    also have "dys ! j = 1 + int j * E"
      using j unfolding dys_def by (rule py_range_nth)
    finally show ?thesis by (simp add: mk_def)
  qed
  show ?thesis
    using cover count order unfolding nx' ny' by blast
qed

theorem build_sections_covers_row_major_witness:
  "(1::int) \<le> 300 \<and> (1::int) \<le> 200 \<and> (1::int) \<le> 128
     \<and> (\<exists>t \<in> set (build_sections 300 200 128). in_tile t 300 200)
     \<and> length (build_sections 300 200 128) = 6
     \<and> build_sections 300 200 128 ! 3 = (129, 257, 129, 257)"
proof -
  have c: "\<lceil>real_of_int 300 / real_of_int 128\<rceil> = 3" "\<lceil>real_of_int 200 / real_of_int 128\<rceil> = 2"
    by (simp_all add: ceiling_divide_eq_div)
  have "(1::int) \<le> 300" "(1::int) \<le> 200" "(1::int) \<le> 128" by simp_all
  from build_sections_covers_row_major[OF this, unfolded c]
  have cov: "\<forall>px py. 1 \<le> px \<and> px \<le> 300 \<and> 1 \<le> py \<and> py \<le> 200 \<longrightarrow>
            (\<exists>t \<in> set (build_sections 300 200 128). in_tile t px py)"
    and len: "int (length (build_sections 300 200 128)) = 3 * 2"
    and ord: "\<forall>i j. i < nat 3 \<and> j < nat 2 \<longrightarrow>
            build_sections 300 200 128 ! (i * nat 2 + j)
              = (1 + int i * 128, 1 + int i * 128 + 128, 1 + int j * 128, 1 + int j * 128 + 128)"
    by blast+
  from cov have "\<exists>t \<in> set (build_sections 300 200 128). in_tile t 300 200" by simp
  moreover from len have "length (build_sections 300 200 128) = 6" by simp
  moreover from ord[rule_format, of 1 1] have "build_sections 300 200 128 ! 3 = (129, 257, 129, 257)"
    by simp
  ultimately show ?thesis by simp
qed

section \<open>Evaluation of the program on concrete inputs\<close>

lemma replicate_numeral_unfold: "replicate (numeral k) x = x # replicate (pred_numeral k) x"
  by (simp add: numeral_eq_Suc)

lemmas text_eval = region_line_def format_2f_def rjust_def round_half_even_def show_nat.simps
  digit_char_def replicate_numeral_unfold newline_def show_int_def py_float_def digit_of_def
  py_split_def is_space_def py_lines_def splitext_def rfind_def

lemmas viewer_eval = frame_new_def frame_delete_all_def set_file_def set_blink_def
  region_delete_all_def draw_region_def

lemmas dm_eval = frame_number_def region_filename_def blinking_def blink_def clear_def mark_def
  label_def regions_def circle_in_line_def none_guard_def load_regions_def write_file_def save_regions_def
  delete_region_def cutout_of_def load_image_def load_images_def new_display_manager_def
  sec_num_def py_index_def reg_extension_def

lemmas loop_eval = width_def reload_def start_def step_def main_program_def
  raised_def state_after_def loop_raised_def loop_state_def blank_def first_tile_def
  three_points_def idx_of_def power2_eq_square shown_first_tile_def uncropped_def
  uncropped_str_def

lemmas eval = loop_eval dm_eval viewer_eval text_eval

lemma sections_256:
  "build_sections 256 256 128 =
     [(1, 129, 1, 129), (1, 129, 129, 257), (129, 257, 1, 129), (129, 257, 129, 257)]"
  by (simp add: build_sections_def append_row_def py_range.simps)

section \<open>Coordinates written and read back\<close>

text \<open>
  Claim C1. The claim says that the transform applied when saving, local to global, is
  \<open>(x + x_min - 1, y + y_min - 1)\<close> and that the transform applied when loading takes
  the result back to \<open>(x, y)\<close>. The program does not do this on the y axis:
  \<open>save_regions\<close> adds \<open>section[1] - 1\<close>, the upper x bound, to y, while
  \<open>load_regions\<close> subtracts \<open>section[2] - 1\<close>. With \<open>a.fits\<close> shown at the section
  \<open>(1, 129, 1, 129)\<close> and one marker at the local point \<open>(64, 64)\<close>, saving writes the
  line for \<open>(64, 192)\<close>, and loading that file on the same section draws the marker at
  \<open>(64, 192)\<close>.
\<close>

theorem save_then_load_shifts_y:
  "raised (save_regions (mark 64 64 shown_first_tile)) = None
   \<and> files (state_after (save_regions (mark 64 64 shown_first_tile))) ''a.coo''
       = Some (''       64.00       192.00'' @ [newline])
   \<and> regions (state_after (load_regions (region_delete_all
         (state_after (save_regions (mark 64 64 shown_first_tile)))))) = Inr [(64, 192)]"
  by (simp add: eval)

text \<open>
  Claim C2. The claim says that a 256 by 256 mosaic gives the sections
  \<open>(1,128,1,128)\<close>, \<open>(1,128,129,256)\<close>, \<open>(129,256,1,128)\<close>, \<open>(129,256,129,256)\<close> and
  that marking the local point \<open>(64, 64)\<close> of \<open>a.fits\<close> at the first section writes the
  line of \<open>(64, 64)\<close> to \<open>a.coo\<close>. The program generates sections whose upper bounds are
  one stride above the lower ones, \<open>(1,129,1,129)\<close> first, and running it on the keys
  \<open>b\<close> (blinking off) and \<open>a\<close> at \<open>(64, 64)\<close> leaves \<open>a.coo\<close> holding the line of
  \<open>(64, 192)\<close>.
\<close>

theorem first_tile_mark_scenario:
  "build_sections 256 256 width =
     [(1, 129, 1, 129), (1, 129, 129, 257), (129, 257, 1, 129), (129, 257, 129, 257)]
   \<and> loop_raised (main_program [] (256, 256) [''a.fits''] blank
        [(''b'', 0, 0), (''a'', 64, 64)]) = None
   \<and> files (loop_state (main_program [] (256, 256) [''a.fits''] blank
        [(''b'', 0, 0), (''a'', 64, 64)])) ''a.coo''
       = Some (''       64.00       192.00'' @ [newline])"
  by (simp add: sections_256 eval)

text \<open>
  Claim C3. The claim says that deleting near a point removes the stored points within
  the radius and keeps every other point with its coordinates unchanged, so that from
  the stored points \<open>(0,0)\<close>, \<open>(0.5,0.5)\<close>, \<open>(10,10)\<close> a delete at \<open>(0,0)\<close> leaves
  \<open>(10,10)\<close>. In the program \<open>delete_region\<close> draws each kept point at its stored,
  full-mosaic coordinates and then calls \<open>save_regions\<close>, which adds the section offsets
  once more. With \<open>a.fits\<close> at the first section of a 256 by 256 mosaic, the keys \<open>b\<close>
  and \<open>d\<close> at the local point \<open>(0, 0)\<close>, which is the global point \<open>(0, 0)\<close>, leave
  \<open>a.coo\<close> holding the line of \<open>(10, 138)\<close>.
\<close>

theorem delete_region_shifts_kept_point:
  "loop_raised (main_program [] (256, 256) [''a.fits'']
        (blank\<lparr>files := [''a.coo'' \<mapsto> three_points]\<rparr>)
        [(''b'', 0, 0), (''d'', 0, 0)]) = None
   \<and> files (loop_state (main_program [] (256, 256) [''a.fits'']
        (blank\<lparr>files := [''a.coo'' \<mapsto> three_points]\<rparr>)
        [(''b'', 0, 0), (''d'', 0, 0)])) ''a.coo''
       = Some (''       10.00       138.00'' @ [newline])"
  by (simp add: sections_256 eval)

text \<open>
  Claim C8. The claim says that on a frame loaded without cropping the transforms use
  the offsets \<open>(1, 1)\<close>, so that saving and reloading leaves both coordinates unchanged.
  The guard of the program recognises the string \<open>"None"\<close> and replaces it by
  \<open>(1, 0, 1, 0)\<close>: \<open>save_regions\<close> then subtracts 1 from y, and a marker at \<open>(5, 5)\<close>
  is written and read back as \<open>(5, 4)\<close>. The value \<open>None\<close>, which is what a load without
  cropping binds, is not recognised: \<open>save_regions\<close> raises a \<open>TypeError\<close> at the first
  marker and leaves an empty file.
\<close>

theorem uncropped_save_not_identity:
  "sections uncropped_str (frame_number uncropped_str) = Some (SecStr ''None'')
   \<and> raised (save_regions (mark 5 5 uncropped_str)) = None
   \<and> files (state_after (save_regions (mark 5 5 uncropped_str))) ''a.coo''
       = Some (''        5.00         4.00'' @ [newline])
   \<and> regions (state_after (load_regions (region_delete_all
         (state_after (save_regions (mark 5 5 uncropped_str)))))) = Inr [(5, 4)]
   \<and> sections uncropped (frame_number uncropped) = Some SecNone
   \<and> raised (save_regions (mark 5 5 uncropped)) = Some TypeError
   \<and> files (state_after (save_regions (mark 5 5 uncropped))) ''a.coo'' = Some []"
  by (simp add: eval)

section \<open>Sections that share pixels\<close>

text \<open>
  Claim C5. The claim says that no pixel lies in two distinct generated sections, bounds
  included. In the program the upper bound of a section is the lower bound of the next
  one: for a 256 by 256 mosaic the pixel \<open>(129, 1)\<close> lies in the first section
  \<open>(1, 129, 1, 129)\<close> and in the third, \<open>(129, 257, 1, 129)\<close>.
\<close>

theorem adjacent_sections_share_pixel:
  "build_sections 256 256 width ! 0 = (1, 129, 1, 129)
   \<and> build_sections 256 256 width ! 2 = (129, 257, 1, 129)
   \<and> in_tile (build_sections 256 256 width ! 0) 129 1
   \<and> in_tile (build_sections 256 256 width ! 2) 129 1"
  by (simp add: sections_256 width_def in_tile_def)

section \<open>Navigation between sections\<close>

lemma idx_of_reload: "idx_of (reload secs fns i s) = i"
  by (auto simp: reload_def idx_of_def Let_def split: sum.splits prod.splits)

lemma step_next:
  "step usage secs fns (''n'', x, y) idx s
     = reload secs fns (min (idx + 1) (int (length secs) - 1)) s"
  by (simp add: step_def)

lemma step_prev:
  "step usage secs fns (''p'', x, y) idx s = reload secs fns (max (idx - 1) 0) s"
  by (simp add: step_def)

lemma step_other_idx:
  "key \<noteq> ''n'' \<Longrightarrow> key \<noteq> ''p'' \<Longrightarrow> idx_of (step usage secs fns (key, x, y) idx s) = idx"
  by (auto simp: step_def idx_of_def Let_def split: sum.splits prod.splits)

lemma step_idx_range:
  assumes "secs \<noteq> []" and "0 \<le> idx" and "idx \<le> int (length secs) - 1"
  shows "0 \<le> idx_of (step usage secs fns ev idx s)
       \<and> idx_of (step usage secs fns ev idx s) \<le> int (length secs) - 1"
proof -
  obtain key x y where ev: "ev = (key, x, y)" by (cases ev) auto
  consider "key = ''n''" | "key = ''p''" | "key \<noteq> ''n''" "key \<noteq> ''p''" by blast
  then show ?thesis
  proof cases
    case 1
    with assms show ?thesis by (auto simp add: ev step_next idx_of_reload)
  next
    case 2
    with assms show ?thesis by (auto simp add: ev step_prev idx_of_reload)
  next
    case 3
    with assms(2,3) show ?thesis by (simp add: ev step_other_idx)
  qed
qed

lemma run_idx_range:
  assumes "secs \<noteq> []"
  shows "0 \<le> idx \<Longrightarrow> idx \<le> int (length secs) - 1 \<Longrightarrow>
         0 \<le> idx_of (run usage secs fns evs idx s)
       \<and> idx_of (run usage secs fns evs idx s) \<le> int (length secs) - 1"
proof (induction evs arbitrary: idx s)
  case Nil
  then show ?case by (simp add: idx_of_def)
next
  case (Cons ev evs)
  from step_idx_range[OF assms Cons.prems, of usage fns ev s]
  have st: "0 \<le> idx_of (step usage secs fns ev idx s)"
           "idx_of (step usage secs fns ev idx s) \<le> int (length secs) - 1" by simp_all
  show ?case
  proof (cases "step usage secs fns ev idx s")
    case (Inl e)
    with st show ?thesis by simp
  next
    case (Inr out)
    show ?thesis
    proof (cases out)
      case (Continue i s')
      with Inr st have "0 \<le> i" "i \<le> int (length secs) - 1" by (simp_all add: idx_of_def)
      from Cons.IH[OF this] Inr Continue show ?thesis by simp
    next
      case (Break i s')
      with Inr st show ?thesis by simp
    qed
  qed
qed

lemma load_lines_tuple_error:
  "load_lines (SecTuple t) lines s = Inl (e, s') \<Longrightarrow> e = ValueError"
proof (induction lines arbitrary: s)
  case Nil
  then show ?case by simp
next
  case (Cons line rest)
  obtain a b c d where t: "t = (a, b, c, d)" by (cases t) auto
  from Cons.prems Cons.IH show ?case
    by (auto simp: sec_num_def t split: list.splits option.splits)
qed

lemma load_regions_tuple_error:
  assumes "sections s (frame_number s) = Some (SecTuple t)"
    and "load_regions s = Inl (e, s')"
  shows "e \<noteq> IndexError"
proof -
  from assms have "e = KeyError \<or> e = ValueError"
    by (auto simp: load_regions_def region_filename_def none_guard_def Let_def
             dest: load_lines_tuple_error split: option.splits)
  then show ?thesis by auto
qed

lemma load_image_tuple_error:
  assumes "load_image name (SecTuple t) frame s = Inl (e, s')"
  shows "e \<noteq> IndexError"
proof -
  obtain a b c d where t: "t = (a, b, c, d)" by (cases t) auto
  define s4 where "s4 =
    (set_file (name @ ''['' @ show_int a @ '':'' @ show_int b @ '','' @ show_int c @ '':''
                  @ show_int d @ '']'') (if frame = None then frame_new s else s))
      \<lparr>filenames := (filenames s)(frameno (if frame = None then frame_new s else s) \<mapsto> name),
       sections := (sections s)(frameno (if frame = None then frame_new s else s)
                      \<mapsto> SecTuple (a, b, c, d))\<rparr>"
  define s5 where "s5 = label (real_of_int (b - 10)) (real_of_int (c + d) / 2)
      (name @ ''['' @ show_int a @ '':'' @ show_int b @ '','' @ show_int c @ '':''
          @ show_int d @ '']'') s4"
  have li: "load_image name (SecTuple t) frame s = load_regions s5"
    by (simp add: load_image_def cutout_of_def sec_num_def t Let_def s5_def s4_def
                  set_file_def frame_number_def frame_new_def)
  have "sections s5 (frame_number s5) = Some (SecTuple t)"
    by (simp add: s5_def s4_def t label_def draw_region_def frame_number_def set_file_def
                  frame_new_def Let_def)
  from load_regions_tuple_error[OF this] assms li show ?thesis by simp
qed

lemma load_each_tuple_error:
  "load_each names (SecTuple t) s = Inl (e, s') \<Longrightarrow> e \<noteq> IndexError"
proof (induction names arbitrary: s)
  case Nil
  then show ?case by simp
next
  case (Cons name rest)
  show ?case
  proof (cases "load_image name (SecTuple t) None s")
    case (Inl r)
    with Cons.prems have "load_image name (SecTuple t) None s = Inl (e, s')" by simp
    then show ?thesis by (rule load_image_tuple_error)
  next
    case (Inr s1)
    with Cons.prems have "load_each rest (SecTuple t) s1 = Inl (e, s')" by simp
    then show ?thesis by (rule Cons.IH)
  qed
qed

lemma reload_no_index_error:
  assumes "0 \<le> i" and "i \<le> int (length secs) - 1"
  shows "loop_raised (reload secs fns i s) \<noteq> Some IndexError"
proof -
  from assms have "py_index secs i = Inr (secs ! nat i)"
    by (simp add: py_index_def)
  then show ?thesis
    by (auto simp: reload_def loop_raised_def load_images_def Let_def
             dest: load_each_tuple_error split: sum.splits prod.splits)
qed

lemma start_entered:
  assumes "start limits fns s0 = Inr (secs, idx, s)"
  shows "secs = build_sections (fst limits) (snd limits) width \<and> secs \<noteq> [] \<and> idx = 0"
proof -
  have eq: "secs = build_sections (fst limits) (snd limits) width"
    using assms by (auto simp: start_def Let_def split: sum.splits outcome.splits)
  moreover have "idx_of (reload secs fns 0 (new_display_manager s0)) = idx \<and> secs \<noteq> []"
    using assms eq
    by (auto simp: start_def Let_def reload_def py_index_def idx_of_def
             split: sum.splits outcome.splits prod.splits if_splits)
  ultimately show ?thesis by (simp add: idx_of_reload)
qed

text \<open>
  Claim C6. Once the program has entered its loop, whatever events follow, the section
  index is between 0 and the number of sections minus 1 when the loop stops or the
  events run out (also when an exception ends the program). The key \<open>n\<close> on the last
  section reloads the last section and the key \<open>p\<close> on the first section reloads the
  first: the index does not move, and no index error is raised.
\<close>

theorem navigation_saturates:
  assumes "start limits fns s0 = Inr (secs, idx0, s1)"
  shows "0 \<le> idx_of (run usage secs fns events idx0 s1)
       \<and> idx_of (run usage secs fns events idx0 s1) \<le> int (length secs) - 1
       \<and> step usage secs fns (''n'', x, y) (int (length secs) - 1) s
           = reload secs fns (int (length secs) - 1) s
       \<and> step usage secs fns (''p'', x, y) 0 s = reload secs fns 0 s
       \<and> idx_of (reload secs fns (int (length secs) - 1) s) = int (length secs) - 1
       \<and> idx_of (reload secs fns 0 s) = 0
       \<and> loop_raised (reload secs fns (int (length secs) - 1) s) \<noteq> Some IndexError
       \<and> loop_raised (reload secs fns 0 s) \<noteq> Some IndexError"
proof -
  from start_entered[OF assms] have ne: "secs \<noteq> []" and z: "idx0 = 0" by blast+
  from ne have len: "0 \<le> int (length secs) - 1" by (cases secs) simp_all
  from run_idx_range[OF ne, of 0 usage fns events s1] len z
  have "0 \<le> idx_of (run usage secs fns events idx0 s1)
      \<and> idx_of (run usage secs fns events idx0 s1) \<le> int (length secs) - 1" by simp
  moreover have "step usage secs fns (''n'', x, y) (int (length secs) - 1) s
           = reload secs fns (int (length secs) - 1) s"
    by (simp add: step_def)
  moreover have "step usage secs fns (''p'', x, y) 0 s = reload secs fns 0 s"
    by (simp add: step_def)
  moreover have "loop_raised (reload secs fns i s) \<noteq> Some IndexError"
    if "0 \<le> i" "i \<le> int (length secs) - 1" for i
    using that by (rule reload_no_index_error)
  ultimately show ?thesis using len by (simp add: idx_of_reload)
qed

theorem navigation_saturates_witness:
  "0 \<le> idx_of (main_program [] (256, 256) [''a.fits''] blank
          [(''n'', 0, 0), (''n'', 0, 0), (''n'', 0, 0), (''n'', 0, 0), (''p'', 0, 0)])
   \<and> idx_of (main_program [] (256, 256) [''a.fits''] blank
          [(''n'', 0, 0), (''n'', 0, 0), (''n'', 0, 0), (''n'', 0, 0), (''p'', 0, 0)]) \<le> 3"
proof -
  have "\<exists>r. start (256, 256) [''a.fits''] blank = Inr r"
    by (simp add: sections_256 eval)
  then obtain secs idx0 s1 where st: "start (256, 256) [''a.fits''] blank = Inr (secs, idx0, s1)"
    by (metis prod_cases3)
  from start_entered[OF st] have "length secs = 4"
    by (simp add: sections_256 width_def)
  with navigation_saturates[OF st, of "[]"
      "[(''n'', 0, 0), (''n'', 0, 0), (''n'', 0, 0), (''n'', 0, 0), (''p'', 0, 0)]"] st
  show ?thesis by (simp add: main_program_def)
qed

section \<open>Marking while blinking\<close>

text \<open>
  Claim C7. When the viewer is blinking, the keys \<open>a\<close> and \<open>d\<close> print their warning
  and change nothing else: the files, the markers, the frame bindings, the blink flag
  and the section index are as before, and the loop continues.
\<close>

theorem blink_guard_rejects:
  assumes "blinking s"
  shows "step usage secs fns (''a'', x, y) idx s
           = Inr (Continue idx (s\<lparr>printed := printed s @ [warn_mark]\<rparr>))
       \<and> step usage secs fns (''d'', x, y) idx s
           = Inr (Continue idx (s\<lparr>printed := printed s @ [warn_delete]\<rparr>))"
  using assms by (simp add: step_def)

theorem blink_guard_rejects_witness:
  "blinking (shown_first_tile\<lparr>blink_on := True\<rparr>)
   \<and> step [] [first_tile] [''a.fits''] (''a'', 64, 64) 0 (shown_first_tile\<lparr>blink_on := True\<rparr>)
       = Inr (Continue 0 (shown_first_tile\<lparr>blink_on := True, printed := [warn_mark]\<rparr>))
   \<and> step [] [first_tile] [''a.fits''] (''d'', 64, 64) 0 (shown_first_tile\<lparr>blink_on := True\<rparr>)
       = Inr (Continue 0 (shown_first_tile\<lparr>blink_on := True, printed := [warn_delete]\<rparr>))"
proof -
  have b: "blinking (shown_first_tile\<lparr>blink_on := True\<rparr>)"
    by (simp add: blinking_def)
  have p: "printed shown_first_tile = []"
    by (simp add: eval)
  from blink_guard_rejects[OF b, of "[]" "[first_tile]" "[''a.fits'']" 64 64 0] b p
  show ?thesis by simp
qed

section \<open>Loading without a section\<close>











section \<open>Deleting with no sidecar file\<close>

text \<open>
  Claim C10. When the sidecar file of the image shown in the current frame does not
  exist, \<open>delete_region\<close> raises (the file is opened for reading), with nothing changed,
  whereas \<open>load_regions\<close> returns with nothing changed, so no marker drawn.
\<close>

theorem delete_region_missing_sidecar:
  assumes "region_filename s = Inr path" and "files s path = None"
  shows "delete_region x y s = Inl (IOError, s) \<and> load_regions s = Inr s"
  using assms by (simp add: delete_region_def load_regions_def)

theorem delete_region_missing_sidecar_witness:
  "region_filename shown_first_tile = Inr ''a.coo''
   \<and> files shown_first_tile ''a.coo'' = None
   \<and> delete_region 0 0 shown_first_tile = Inl (IOError, shown_first_tile)
   \<and> load_regions shown_first_tile = Inr shown_first_tile"
proof -
  have r: "region_filename shown_first_tile = Inr ''a.coo''"
    by (simp add: eval)
  have f: "files shown_first_tile ''a.coo'' = None"
    by (simp add: eval)
  from delete_region_missing_sidecar[OF r f, of 0 0] r f show ?thesis by simp
qed

end
